theory Spec2Isabelle
  imports Complex_Main "HOL-Library.Sublist"
begin

section \<open>Python values and exceptions\<close>

text \<open>
  The notebook \<^verbatim>\<open>labs/athnlp24-rag-lab.ipynb\<close> works on Python strings, lists and
  dictionaries. A Python \<^verbatim>\<open>str\<close> is modelled as a \<^typ>\<open>string\<close>: one \<^typ>\<open>char\<close> per
  code point, for texts whose code points are below 256. A dictionary whose iteration
  order matters (\<^verbatim>\<open>prediction.keys()\<close>) is an association list in insertion order; a
  dictionary that is only indexed is a map. Every exception the cells can raise is a
  constructor of \<open>error\<close>, and a computation that may raise returns \<open>error + 'a\<close>.

  The notebook uses names it does not define or import itself: the module \<^verbatim>\<open>re\<close>, the
  classes \<^verbatim>\<open>LLM\<close>, \<^verbatim>\<open>MedRAG\<close> and \<^verbatim>\<open>DataLoaderPQAInferenceWithAugmentations\<close>, and
  \<^verbatim>\<open>write_dict\<close>. They are taken to be in scope when a cell runs, \<^verbatim>\<open>re\<close> being Python's
  standard module; a \<^verbatim>\<open>NameError\<close> for a missing one is not modelled.
\<close>

datatype error =
    IndexError
  | KeyError
  | AttributeError
  | TypeError
  | ValueError
  | ZeroDivisionError
  | NotImplementedError

subsection \<open>Regular-expression substitution and \<^verbatim>\<open>clean\<close>\<close>

text \<open>
  \<^verbatim>\<open>re.sub(P+, r, s)\<close> for a one-character class \<open>P\<close>: scanning from the left, every
  maximal run of characters in the class is replaced by \<open>r\<close>; the other characters are
  copied.
\<close>

function re_sub_plus :: "(char \<Rightarrow> bool) \<Rightarrow> string \<Rightarrow> string \<Rightarrow> string" where
  "re_sub_plus p r [] = []"
| "re_sub_plus p r (c # cs) =
     (if p c then r @ re_sub_plus p r (dropWhile p cs) else c # re_sub_plus p r cs)"
  by pat_completeness auto
termination
  by (relation "measure (\<lambda>(p, r, s). length s)")
     (auto simp: le_imp_less_Suc length_dropWhile_le)

definition is_letter :: "char \<Rightarrow> bool" where
  "is_letter c =
     (let n = (of_char c :: nat) in (65 \<le> n \<and> n \<le> 90) \<or> (97 \<le> n \<and> n \<le> 122))"

text \<open>The class \<^verbatim>\<open>[A-Za-z.]\<close>; the pattern of \<^verbatim>\<open>clean\<close> is its complement.\<close>

definition in_class :: "char \<Rightarrow> bool" where
  "in_class c = (is_letter c \<or> c = CHR ''.'')"

text \<open>
  \<^verbatim>\<open>def clean(answer):
      return re.sub(" +", "", re.sub(r'[^A-Za-z.]+', ' ', answer))\<close>
\<close>

definition clean :: "string \<Rightarrow> string" where
  "clean answer =
     re_sub_plus (\<lambda>c. c = CHR '' '') ''''
       (re_sub_plus (\<lambda>c. \<not> in_class c) '' '' answer)"

text \<open>
  The specification's wording of \<^verbatim>\<open>clean\<close>: strip every character outside the set
  of letters and the period, then collapse consecutive whitespace (a run of whitespace
  becomes one space).
\<close>

definition is_space :: "char \<Rightarrow> bool" where
  "is_space c =
     (let n = (of_char c :: nat)
      in (9 \<le> n \<and> n \<le> 13) \<or> (28 \<le> n \<and> n \<le> 32) \<or> n = 133 \<or> n = 160)"

definition strip_outside :: "string \<Rightarrow> string" where
  "strip_outside s = filter in_class s"

definition collapse_whitespace :: "string \<Rightarrow> string" where
  "collapse_whitespace s = re_sub_plus is_space '' '' s"

definition clean_spec :: "string \<Rightarrow> string" where
  "clean_spec s = collapse_whitespace (strip_outside s)"

text \<open>No two neighbouring characters of the string are both spaces.\<close>

fun single_spaces :: "string \<Rightarrow> bool" where
  "single_spaces (a # b # cs) = (\<not> (a = CHR '' '' \<and> b = CHR '' '') \<and> single_spaces (b # cs))"
| "single_spaces cs = True"

text \<open>The first character of a string, when there is one.\<close>

fun first_char :: "string \<Rightarrow> char option" where
  "first_char [] = None"
| "first_char (c # cs) = Some c"

subsection \<open>\<^verbatim>\<open>str.split\<close>, \<^verbatim>\<open>str.strip\<close> and the two markers\<close>

text \<open>
  \<^verbatim>\<open>s.split(sep)\<close> for a non-empty separator (the cells only pass the two markers below):
  the separator is searched from the left, the text before an occurrence is one piece, and
  the search goes on after the occurrence. The result always has at least one piece.
\<close>

function py_split :: "string \<Rightarrow> string \<Rightarrow> string list" where
  "py_split sep [] = [[]]"
| "py_split sep (c # cs) =
     (if sep \<noteq> [] \<and> prefix sep (c # cs)
      then [] # py_split sep (drop (length sep) (c # cs))
      else (case py_split sep cs of [] \<Rightarrow> [[c]] | p # ps \<Rightarrow> (c # p) # ps))"
  by pat_completeness auto
termination
  by (relation "measure (\<lambda>(sep, s). length s)") (auto simp: neq_Nil_conv)

text \<open>\<^verbatim>\<open>s.strip()\<close>: leading and trailing whitespace (\<^verbatim>\<open>str.isspace\<close>) is removed.\<close>

definition strip :: "string \<Rightarrow> string" where
  "strip s = rev (dropWhile is_space (rev (dropWhile is_space s)))"

definition think_marker :: string where
  "think_marker = ''\"step_by_step_thinking\":''"

definition answer_marker :: string where
  "answer_marker = ''\"answer_choice\":''"

subsection \<open>\<^verbatim>\<open>eval_prediction\<close>\<close>

text \<open>
  The values a predictions dictionary can hold: a string, a list, or a value of another
  type that has neither a \<^verbatim>\<open>split\<close> method nor indexing (\<^verbatim>\<open>None\<close>, a number).
\<close>

datatype pyval = PStr string | PList "pyval list" | POther

text \<open>
  A dictionary comprehension \<^verbatim>\<open>{qid: f(d[qid]) for qid in d.keys()}\<close>: the keys are visited
  in insertion order, the first exception ends the comprehension. The keys of a dictionary
  are distinct, so \<^verbatim>\<open>d[qid]\<close> is the value stored with \<open>qid\<close>.
\<close>

fun dict_comp :: "('v \<Rightarrow> error + 'w) \<Rightarrow> ('k \<times> 'v) list \<Rightarrow> error + ('k \<times> 'w) list" where
  "dict_comp f [] = Inr []"
| "dict_comp f ((qid, v) # d) =
     (case f v of
        Inl e \<Rightarrow> Inl e
      | Inr w \<Rightarrow> (case dict_comp f d of Inl e \<Rightarrow> Inl e | Inr r \<Rightarrow> Inr ((qid, w) # r)))"

text \<open>
  \<^verbatim>\<open>v.split("\"step_by_step_thinking\":")[-1].split("\"answer_choice\":")[0].strip()\<close>;
  a value that is not a string has no \<^verbatim>\<open>split\<close>.
\<close>

definition explanation_of :: "pyval \<Rightarrow> error + string" where
  "explanation_of v =
     (case v of
        PStr s \<Rightarrow> Inr (strip (hd (py_split answer_marker (last (py_split think_marker s)))))
      | PList l \<Rightarrow> Inl AttributeError
      | POther \<Rightarrow> Inl AttributeError)"

text \<open>The text after the last answer marker (the whole text when there is no marker).\<close>

definition answer_segment :: "string \<Rightarrow> string" where
  "answer_segment s = last (py_split answer_marker s)"

text \<open>
  \<^verbatim>\<open>clean(v.split("\"answer_choice\":")[-1].strip())[0]\<close>; indexing the empty string
  raises \<^verbatim>\<open>IndexError\<close>. The answer symbol is a string of one character.
\<close>

definition answer_of :: "pyval \<Rightarrow> error + string" where
  "answer_of v =
     (case v of
        PStr s \<Rightarrow>
          (case clean (strip (answer_segment s)) of
             [] \<Rightarrow> Inl IndexError
           | c # cs \<Rightarrow> Inr [c])
      | PList l \<Rightarrow> Inl AttributeError
      | POther \<Rightarrow> Inl AttributeError)"

text \<open>\<^verbatim>\<open>v[0]\<close>: the first element of a list, the first character of a string.\<close>

definition item0 :: "pyval \<Rightarrow> error + pyval" where
  "item0 v =
     (case v of
        PStr s \<Rightarrow> (case s of [] \<Rightarrow> Inl IndexError | c # cs \<Rightarrow> Inr (PStr [c]))
      | PList l \<Rightarrow> (case l of [] \<Rightarrow> Inl IndexError | x # xs \<Rightarrow> Inr x)
      | POther \<Rightarrow> Inl TypeError)"

definition then_do :: "('a \<Rightarrow> error + 'b) \<Rightarrow> ('b \<Rightarrow> error + 'c) \<Rightarrow> 'a \<Rightarrow> error + 'c" where
  "then_do f g v = (case f v of Inl e \<Rightarrow> Inl e | Inr w \<Rightarrow> g w)"

text \<open>The two branches: first all the explanations, then all the answers.\<close>

definition str_branch ::
  "('k \<times> pyval) list \<Rightarrow> error + (('k \<times> string) list \<times> ('k \<times> string) list)" where
  "str_branch prediction =
     (case dict_comp explanation_of prediction of
        Inl e \<Rightarrow> Inl e
      | Inr explanations \<Rightarrow>
          (case dict_comp answer_of prediction of
             Inl e \<Rightarrow> Inl e
           | Inr answers \<Rightarrow> Inr (explanations, answers)))"

definition list_branch ::
  "('k \<times> pyval) list \<Rightarrow> error + (('k \<times> string) list \<times> ('k \<times> string) list)" where
  "list_branch prediction =
     (case dict_comp (then_do item0 explanation_of) prediction of
        Inl e \<Rightarrow> Inl e
      | Inr explanations \<Rightarrow>
          (case dict_comp (then_do item0 answer_of) prediction of
             Inl e \<Rightarrow> Inl e
           | Inr answers \<Rightarrow> Inr (explanations, answers)))"

text \<open>
  \<^verbatim>\<open>def eval_prediction(prediction)\<close>: the type test looks at
  \<^verbatim>\<open>prediction[list(prediction.keys())[0]]\<close>, which raises \<^verbatim>\<open>IndexError\<close> on an empty
  dictionary. The result is the pair \<^verbatim>\<open>(explanations, answers)\<close>.
\<close>

definition eval_prediction ::
  "('k \<times> pyval) list \<Rightarrow> error + (('k \<times> string) list \<times> ('k \<times> string) list)" where
  "eval_prediction prediction =
     (case prediction of
        [] \<Rightarrow> Inl IndexError
      | first # others \<Rightarrow>
          (case snd first of
             PStr s \<Rightarrow> str_branch prediction
           | PList l \<Rightarrow> list_branch prediction
           | POther \<Rightarrow> Inl NotImplementedError))"

subsection \<open>Ground truth and accuracy\<close>

text \<open>\<^verbatim>\<open>mapping = {'yes': 'A', 'no': 'B', 'maybe': 'C'}\<close>\<close>

definition mapping :: "string \<rightharpoonup> string" where
  "mapping = map_of [(''yes'', ''A''), (''no'', ''B''), (''maybe'', ''C'')]"

text \<open>
  \<^verbatim>\<open>ground_truth = {qids[idx]: mapping[choices[idx]] for idx in range(len(qids))}\<close>: a
  later entry for the same id replaces the earlier one; \<^verbatim>\<open>choices[idx]\<close> raises
  \<^verbatim>\<open>IndexError\<close> past the end of \<open>choices\<close> and \<^verbatim>\<open>mapping[...]\<close> raises \<^verbatim>\<open>KeyError\<close> on
  an unknown label.
\<close>

fun ground_truth_loop ::
  "(string \<rightharpoonup> string) \<Rightarrow> ('k \<rightharpoonup> string) \<Rightarrow> 'k list \<Rightarrow> string list \<Rightarrow> error + ('k \<rightharpoonup> string)" where
  "ground_truth_loop m g [] choices = Inr g"
| "ground_truth_loop m g (qid # qids) [] = Inl IndexError"
| "ground_truth_loop m g (qid # qids) (choice # choices) =
     (case m choice of
        None \<Rightarrow> Inl KeyError
      | Some symbol \<Rightarrow> ground_truth_loop m (g(qid \<mapsto> symbol)) qids choices)"

definition ground_truth ::
  "(string \<rightharpoonup> string) \<Rightarrow> 'k list \<Rightarrow> string list \<Rightarrow> error + ('k \<rightharpoonup> string)" where
  "ground_truth m qids choices = ground_truth_loop m Map.empty qids choices"

text \<open>
  \<^verbatim>\<open>[True if answers[qid] == ground_truth[qid] else False for qid in answers.keys()]\<close>:
  \<^verbatim>\<open>ground_truth[qid]\<close> raises \<^verbatim>\<open>KeyError\<close> for an id that is not a key.
\<close>

fun correct_flags :: "('k \<times> string) list \<Rightarrow> ('k \<rightharpoonup> string) \<Rightarrow> error + bool list" where
  "correct_flags [] gt = Inr []"
| "correct_flags ((qid, a) # answers) gt =
     (case gt qid of
        None \<Rightarrow> Inl KeyError
      | Some g \<Rightarrow>
          (case correct_flags answers gt of
             Inl e \<Rightarrow> Inl e
           | Inr flags \<Rightarrow> Inr ((a = g) # flags)))"

text \<open>
  \<^verbatim>\<open>accuracy = [...].count(True) / len(pubmedqa_test_data.qids)\<close>, with \<open>n\<close> the length of
  \<^verbatim>\<open>qids\<close>. The list is built before the division, so a \<^verbatim>\<open>KeyError\<close> comes before a
  \<^verbatim>\<open>ZeroDivisionError\<close>. The quotient is the exact rational; Python rounds it to the
  nearest float.
\<close>

definition accuracy :: "('k \<times> string) list \<Rightarrow> ('k \<rightharpoonup> string) \<Rightarrow> nat \<Rightarrow> error + rat" where
  "accuracy answers gt n =
     (case correct_flags answers gt of
        Inl e \<Rightarrow> Inl e
      | Inr flags \<Rightarrow>
          if n = 0 then Inl ZeroDivisionError
          else Inr (of_nat (count_list flags True) / of_nat n))"

text \<open>
  The evaluation cell: \<^verbatim>\<open>explanations, answers = eval_prediction(predicted)\<close>, then the
  ground truth, then the accuracy.
\<close>

definition accuracy_cell ::
  "('k \<times> pyval) list \<Rightarrow> (string \<rightharpoonup> string) \<Rightarrow> 'k list \<Rightarrow> string list \<Rightarrow> error + rat" where
  "accuracy_cell predicted m qids choices =
     (case eval_prediction predicted of
        Inl e \<Rightarrow> Inl e
      | Inr (explanations, answers) \<Rightarrow>
          (case ground_truth m qids choices of
             Inl e \<Rightarrow> Inl e
           | Inr gt \<Rightarrow> accuracy answers gt (length qids)))"

subsection \<open>Retrieving demonstrators by tags\<close>

text \<open>
  One element of \<^verbatim>\<open>test_loader\<close> or \<^verbatim>\<open>train_loader\<close>, a batch of size one:
  \<^verbatim>\<open>(question, options, concepts, answers, qid)\<close>. The fields hold \<^verbatim>\<open>question[0]\<close>,
  the options, the tags \<^verbatim>\<open>[c[0] for c in concepts]\<close>, the answer and \<^verbatim>\<open>qid[0]\<close>.
\<close>

record 'k item =
  item_question :: string
  item_options :: "string list"
  item_concepts :: "string list"
  item_answers :: string
  item_qid :: 'k

text \<open>
  \<^verbatim>\<open>list(set(xs))\<close>: the elements of \<open>xs\<close> without repetition. Python fixes no order for
  the result; the model keeps the order of first occurrence, and the statements below
  speak of the elements only.
\<close>

definition list_of_set :: "'a list \<Rightarrow> 'a list" where
  "list_of_set xs = rev (remdups (rev xs))"

text \<open>\<^verbatim>\<open>bool(set(a) & set(b))\<close>\<close>

definition tags_overlap :: "string list \<Rightarrow> string list \<Rightarrow> bool" where
  "tags_overlap a b = (set a \<inter> set b \<noteq> {})"

text \<open>
  The inner loop of the tag cell, for one test element with tags \<open>concepts\<close>:
  \<^verbatim>\<open>for j, (question_neig, options_neig, concepts_neig, answers_neig, qid_neig) in ...:
      if bool(set([c[0] for c in concepts]) & set([c[0] for c in concepts])):
          neighbors[qid[0]].append(qid_neig[0])
      neighbors[qid[0]] = list(set(neighbors[qid[0]]))\<close>
  Both operands of the intersection are the tags of the test element.
\<close>

fun neighbors_loop :: "string list \<Rightarrow> 'k list \<Rightarrow> 'k item list \<Rightarrow> 'k list" where
  "neighbors_loop concepts found [] = found"
| "neighbors_loop concepts found (neig # train) =
     neighbors_loop concepts
       (list_of_set
          (if tags_overlap concepts concepts then found @ [item_qid neig] else found))
       train"

text \<open>The outer loop: \<^verbatim>\<open>neighbors[qid[0]] = []\<close>, then the inner loop.\<close>

fun tag_neighbors :: "('k \<rightharpoonup> 'k list) \<Rightarrow> 'k item list \<Rightarrow> 'k item list \<Rightarrow> ('k \<rightharpoonup> 'k list)" where
  "tag_neighbors neighbors [] train = neighbors"
| "tag_neighbors neighbors (t # test) train =
     tag_neighbors (neighbors(item_qid t \<mapsto> neighbors_loop (item_concepts t) [] train))
       test train"

text \<open>
  The specification's wording of tag-overlap retrieval: the train elements whose tags
  share a tag with the query, without repetition.
\<close>

definition tag_overlap_spec :: "string list \<Rightarrow> 'k item list \<Rightarrow> 'k list" where
  "tag_overlap_spec concepts train =
     list_of_set (map item_qid (filter (\<lambda>neig. tags_overlap concepts (item_concepts neig)) train))"

subsection \<open>Few-shot prompts\<close>

text \<open>
  \<^verbatim>\<open>random.sample(population, k)\<close> is the standard library's: it raises \<^verbatim>\<open>ValueError\<close>
  unless \<open>0 \<le> k \<le> len(population)\<close>, and otherwise draws \<open>k\<close> elements at distinct
  positions. The random numbers are the parameter \<open>rnd\<close>: \<open>rnd i\<close> is the \<open>i\<close>-th number
  drawn, reduced to the size of the remaining pool.

  \<open>sample_loop\<close> is the library's selection from a pool, which it uses for small
  populations (up to 21 candidates when \<open>k \<le> 5\<close>). For larger populations the library
  draws positions of the whole population and draws again on a repeat, so the same random
  numbers can select other elements there than \<open>sample_loop\<close> does. The statements below
  use the guard of \<open>random_sample\<close> and the list of demonstrators that was selected, never
  which elements a given sequence of random numbers selects.
\<close>

fun sample_loop :: "(nat \<Rightarrow> nat) \<Rightarrow> nat \<Rightarrow> nat \<Rightarrow> 'a list \<Rightarrow> 'a list" where
  "sample_loop rnd i 0 pool = []"
| "sample_loop rnd i (Suc k) pool =
     (let j = rnd i mod length pool
      in pool ! j # sample_loop rnd (Suc i) k (butlast (pool[j := last pool])))"

definition random_sample :: "(nat \<Rightarrow> nat) \<Rightarrow> 'a list \<Rightarrow> int \<Rightarrow> error + 'a list" where
  "random_sample rnd population k =
     (if 0 \<le> k \<and> k \<le> int (length population)
      then Inr (sample_loop rnd 0 (nat k) population)
      else Inl ValueError)"

text \<open>
  An entry \<^verbatim>\<open>pubmedqa_train_data.data.data[shot]\<close>; the prompt reads three of its keys.
\<close>

record pqa_entry =
  QUESTION :: string
  LONG_ANSWER :: string
  final_decision :: string

text \<open>
  One demonstration block:
  \<^verbatim>\<open>QUESTION + " {\"step_by_step_thinking\": \"" + LONG_ANSWER + "\"answer_choice\": \"" +
   mapping[final_decision] + "\"}\n \n"\<close>
\<close>

definition demo_block :: "(string \<rightharpoonup> string) \<Rightarrow> 'e pqa_entry_scheme \<Rightarrow> error + string" where
  "demo_block m e =
     (case m (final_decision e) of
        None \<Rightarrow> Inl KeyError
      | Some symbol \<Rightarrow>
          Inr (QUESTION e @ '' {\"step_by_step_thinking\": \"'' @ LONG_ANSWER e @
               ''\"answer_choice\": \"'' @ symbol @ ''\"}\<newline> \<newline>''))"

text \<open>
  \<^verbatim>\<open>for shot in shots_selected: query += ...\<close>; \<^verbatim>\<open>data[shot]\<close> raises \<^verbatim>\<open>KeyError\<close> for an
  id that is not in the train data.
\<close>

fun shots_loop ::
  "(string \<rightharpoonup> string) \<Rightarrow> ('k \<rightharpoonup> 'e pqa_entry_scheme) \<Rightarrow> string \<Rightarrow> 'k list \<Rightarrow> error + string" where
  "shots_loop m data query [] = Inr query"
| "shots_loop m data query (shot # shots) =
     (case data shot of
        None \<Rightarrow> Inl KeyError
      | Some e \<Rightarrow>
          (case demo_block m e of
             Inl err \<Rightarrow> Inl err
           | Inr block \<Rightarrow> shots_loop m data (query @ block) shots))"

text \<open>The prompt for given demonstrators: the blocks, then \<^verbatim>\<open>query += question[0]\<close>.\<close>

definition build_query ::
  "(string \<rightharpoonup> string) \<Rightarrow> ('k \<rightharpoonup> 'e pqa_entry_scheme) \<Rightarrow> 'k list \<Rightarrow> string \<Rightarrow> error + string" where
  "build_query m data shots_selected question =
     (case shots_loop m data [] shots_selected of
        Inl err \<Rightarrow> Inl err
      | Inr query \<Rightarrow> Inr (query @ question))"

text \<open>
  The body of the few-shot loop for one test element:
  \<^verbatim>\<open>shots_selected = random.sample(neighbors[qid[0]], num_shots)\<close>, then the prompt.
  It returns the demonstrators chosen and the prompt.
\<close>

definition fewshot_query ::
  "(nat \<Rightarrow> nat) \<Rightarrow> ('k \<rightharpoonup> 'k list) \<Rightarrow> int \<Rightarrow> (string \<rightharpoonup> string) \<Rightarrow>
   ('k \<rightharpoonup> 'e pqa_entry_scheme) \<Rightarrow> 'k item \<Rightarrow> error + ('k list \<times> string)" where
  "fewshot_query rnd neighbors num_shots m data t =
     (case neighbors (item_qid t) of
        None \<Rightarrow> Inl KeyError
      | Some candidates \<Rightarrow>
          (case random_sample rnd candidates num_shots of
             Inl err \<Rightarrow> Inl err
           | Inr shots_selected \<Rightarrow>
               (case build_query m data shots_selected (item_question t) of
                  Inl err \<Rightarrow> Inl err
                | Inr query \<Rightarrow> Inr (shots_selected, query))))"

section \<open>Properties of \<^verbatim>\<open>clean\<close>\<close>

lemma filter_dropWhile_neg: "filter (\<lambda>c. \<not> p c) (dropWhile p cs) = filter (\<lambda>c. \<not> p c) cs"
  by (induction cs) auto

lemma re_sub_plus_delete: "re_sub_plus p [] s = filter (\<lambda>c. \<not> p c) s"
  by (induction p "[] :: string" s rule: re_sub_plus.induct)
     (auto simp: filter_dropWhile_neg)

lemma space_not_in_class: "\<not> in_class (CHR '' '')"
  by (simp add: in_class_def is_letter_def)

lemma in_class_not_space: "in_class c \<Longrightarrow> \<not> is_space c"
  by (auto simp: in_class_def is_letter_def is_space_def Let_def)

lemma filter_in_class_dropWhile:
  "filter in_class (dropWhile (\<lambda>c. \<not> in_class c) cs) = filter in_class cs"
  by (induction cs) auto

lemma unspace_re_sub_plus:
  "filter (\<lambda>c. c \<noteq> CHR '' '') (re_sub_plus (\<lambda>c. \<not> in_class c) '' '' s) = filter in_class s"
proof (induction "\<lambda>c. \<not> in_class c" "'' ''" s rule: re_sub_plus.induct)
  case 1
  show ?case by simp
next
  case (2 c cs)
  show ?case
  proof (cases "in_class c")
    case True
    then have "c \<noteq> CHR '' ''" using space_not_in_class by auto
    with True 2 show ?thesis by simp
  next
    case False
    with 2 show ?thesis by (simp add: filter_in_class_dropWhile)
  qed
qed

lemma clean_filter: "clean s = filter in_class s"
  by (simp add: clean_def re_sub_plus_delete unspace_re_sub_plus)

lemma re_sub_plus_no_match: "\<forall>c \<in> set s. \<not> p c \<Longrightarrow> re_sub_plus p r s = s"
  by (induction s) auto

lemma clean_spec_filter: "clean_spec s = filter in_class s"
  unfolding clean_spec_def collapse_whitespace_def strip_outside_def
  by (rule re_sub_plus_no_match) (auto dest: in_class_not_space)

lemma single_spaces_no_space: "CHR '' '' \<notin> set s \<Longrightarrow> single_spaces s"
  by (induction s rule: single_spaces.induct) auto

lemma clean_no_space: "CHR '' '' \<notin> set (clean s)"
  using space_not_in_class by (auto simp: clean_filter)

text \<open>
  C2: for every input string, \<^verbatim>\<open>clean\<close> returns the string obtained by stripping every
  character outside the letters and the period and then collapsing consecutive
  whitespace; every character of the result is a letter, a period or a space, and no two
  spaces are adjacent.
\<close>

theorem clean_strips_and_collapses:
  "clean x = clean_spec x
   \<and> (\<forall>c \<in> set (clean x). is_letter c \<or> c = CHR ''.'' \<or> c = CHR '' '')
   \<and> single_spaces (clean x)"
proof -
  have "clean x = clean_spec x"
    by (simp add: clean_filter clean_spec_filter)
  moreover have "\<forall>c \<in> set (clean x). is_letter c \<or> c = CHR ''.'' \<or> c = CHR '' ''"
    by (auto simp: clean_filter in_class_def)
  moreover have "single_spaces (clean x)"
    by (rule single_spaces_no_space) (rule clean_no_space)
  ultimately show ?thesis by blast
qed

theorem clean_strips_and_collapses_witness:
  "clean ''RIS(K)! of.. Bias'' = ''RISKof..Bias''
   \<and> clean_spec ''RIS(K)! of.. Bias'' = ''RISKof..Bias''
   \<and> CHR ''R'' \<in> set (clean ''RIS(K)! of.. Bias'')
   \<and> single_spaces (clean ''RIS(K)! of.. Bias'')"
proof -
  have e: "clean ''RIS(K)! of.. Bias'' = ''RISKof..Bias''"
    by (simp add: clean_filter in_class_def is_letter_def)
  note t = clean_strips_and_collapses [of "''RIS(K)! of.. Bias''"]
  from t e have "clean_spec ''RIS(K)! of.. Bias'' = ''RISKof..Bias''"
    by metis
  moreover have "CHR ''R'' \<in> set (clean ''RIS(K)! of.. Bias'')"
    by (simp add: e)
  ultimately show ?thesis using t e by blast
qed

text \<open>
  C7: \<^verbatim>\<open>clean\<close> is idempotent, and the first character of the result does not change
  when \<^verbatim>\<open>clean\<close> is applied again.
\<close>

theorem clean_idempotent:
  "clean (clean x) = clean x \<and> first_char (clean (clean x)) = first_char (clean x)"
  by (simp add: clean_filter)

section \<open>The stub generator, end to end\<close>

text \<open>
  C3: with one test element whose gold label is \<open>yes\<close> and the mapping of the notebook, a
  generation \<^verbatim>\<open>{"step_by_step_thinking": "ok","answer_choice": "A"}\<close> is parsed to the
  answer symbol \<open>A\<close> and the accuracy is 1; with the answer choice \<open>B\<close> the parsed symbol is
  \<open>B\<close> and the accuracy is 0.
\<close>

theorem stub_generator_accuracy:
  "eval_prediction [(qid, PStr ''{\"step_by_step_thinking\": \"ok\",\"answer_choice\": \"A\"}'')]
     = Inr ([(qid, ''\"ok\",'')], [(qid, ''A'')])
   \<and> accuracy_cell [(qid, PStr ''{\"step_by_step_thinking\": \"ok\",\"answer_choice\": \"A\"}'')]
         mapping [qid] [''yes''] = Inr 1
   \<and> eval_prediction [(qid, PStr ''{\"step_by_step_thinking\": \"ok\",\"answer_choice\": \"B\"}'')]
     = Inr ([(qid, ''\"ok\",'')], [(qid, ''B'')])
   \<and> accuracy_cell [(qid, PStr ''{\"step_by_step_thinking\": \"ok\",\"answer_choice\": \"B\"}'')]
         mapping [qid] [''yes''] = Inr 0"
  by (simp add: accuracy_cell_def eval_prediction_def str_branch_def explanation_of_def
      answer_of_def answer_segment_def think_marker_def answer_marker_def clean_filter
      in_class_def is_letter_def strip_def is_space_def ground_truth_def mapping_def
      accuracy_def)

section \<open>Tag-overlap retrieval\<close>

lemma set_list_of_set: "set (list_of_set xs) = set xs"
  by (simp add: list_of_set_def)

text \<open>
  The test of the inner loop intersects the tags of the test element with themselves: as
  soon as the test element has a tag, every train element is a neighbour.
\<close>

lemma neighbors_loop_all:
  "concepts \<noteq> [] \<Longrightarrow> set (neighbors_loop concepts found train) = set found \<union> item_qid ` set train"
  by (induction concepts found train rule: neighbors_loop.induct)
     (auto simp: tags_overlap_def set_list_of_set)

lemma neighbors_loop_none:
  "set (neighbors_loop [] found train) = set found"
  by (induction "[] :: string list" found train rule: neighbors_loop.induct)
     (auto simp: tags_overlap_def set_list_of_set)

text \<open>
  C1: tag-overlap retrieval should return only train elements that share a tag with the
  query, and \<open>[A]\<close> for the query tags \<open>{diabetes}\<close>, \<open>A\<close> with \<open>{diabetes, insulin}\<close> and \<open>B\<close>
  with \<open>{cancer}\<close>. The cell returns both \<open>A\<close> and \<open>B\<close> there, where retrieval as the
  specification words it returns \<open>[A]\<close>.
\<close>

theorem tag_overlap_returns_disjoint_record:
  "map_option set
     (tag_neighbors Map.empty
        [\<lparr>item_question = ''q'', item_options = [], item_concepts = [''diabetes''],
          item_answers = ''yes'', item_qid = ''Q''\<rparr>]
        [\<lparr>item_question = ''a'', item_options = [], item_concepts = [''diabetes'', ''insulin''],
          item_answers = ''yes'', item_qid = ''A''\<rparr>,
         \<lparr>item_question = ''b'', item_options = [], item_concepts = [''cancer''],
          item_answers = ''no'', item_qid = ''B''\<rparr>] ''Q'')
     = Some {''A'', ''B''}
   \<and> tag_overlap_spec [''diabetes'']
        [\<lparr>item_question = ''a'', item_options = [], item_concepts = [''diabetes'', ''insulin''],
          item_answers = ''yes'', item_qid = ''A''\<rparr>,
         \<lparr>item_question = ''b'', item_options = [], item_concepts = [''cancer''],
          item_answers = ''no'', item_qid = ''B''\<rparr>] = [''A'']"
  by (auto simp add: tags_overlap_def list_of_set_def tag_overlap_spec_def)

section \<open>Selecting the demonstrators\<close>

text \<open>
  C5: asking for more demonstrators than there are candidates fails (\<^verbatim>\<open>ValueError\<close> from
  \<^verbatim>\<open>random.sample\<close>, the failure the specification calls \<open>InsufficientNeighbors\<close>); no
  smaller selection is made.
\<close>

theorem too_many_shots_fails:
  "int (length candidates) < num_shots \<Longrightarrow>
     random_sample rnd candidates num_shots = Inl ValueError
     \<and> (neighbors (item_qid t) = Some candidates \<longrightarrow>
          fewshot_query rnd neighbors num_shots m data t = Inl ValueError)"
  by (simp add: random_sample_def fewshot_query_def)

theorem too_many_shots_fails_witness:
  "int (length [''A'', ''B'']) < 5
   \<and> random_sample (\<lambda>i. i) [''A'', ''B''] 5 = Inl ValueError
   \<and> [''Q'' \<mapsto> [''A'', ''B'']] (item_qid \<lparr>item_question = ''q'', item_options = [], item_concepts = [''diabetes''],
          item_answers = ''yes'', item_qid = ''Q''\<rparr>) = Some [''A'', ''B'']
   \<and> fewshot_query (\<lambda>i. i) [''Q'' \<mapsto> [''A'', ''B'']] 5 mapping (Map.empty :: string \<rightharpoonup> pqa_entry)
        \<lparr>item_question = ''q'', item_options = [], item_concepts = [''diabetes''],
          item_answers = ''yes'', item_qid = ''Q''\<rparr> = Inl ValueError"
proof -
  have h: "int (length [''A'', ''B'']) < 5" by simp
  show ?thesis
    using too_many_shots_fails [OF h, of "\<lambda>i. i" "[''Q'' \<mapsto> [''A'', ''B'']]" "\<lparr>item_question = ''q'', item_options = [], item_concepts = [''diabetes''],
          item_answers = ''yes'', item_qid = ''Q''\<rparr>" mapping "Map.empty :: string \<rightharpoonup> pqa_entry"]
    by simp
qed

section \<open>Extraneous predicted ids\<close>

lemma correct_flags_KeyError:
  "(qid, a) \<in> set answers \<Longrightarrow> gt qid = None \<Longrightarrow> correct_flags answers gt = Inl KeyError"
proof (induction answers gt rule: correct_flags.induct)
  case (1 gt)
  then show ?case by simp
next
  case (2 q b answers gt)
  then show ?case
    by (cases "gt q"; cases "correct_flags answers gt") auto
qed

lemma correct_flags_Inr:
  "fst ` set answers \<subseteq> dom gt \<Longrightarrow>
     correct_flags answers gt = Inr (map (\<lambda>(qid, a). gt qid = Some a) answers)"
  by (induction answers gt rule: correct_flags.induct) (auto split: option.splits)

text \<open>
  C10: the accuracy computation walks the keys of the predictions and indexes the gold
  mapping with each of them, so a predicted id that is not in gold raises \<^verbatim>\<open>KeyError\<close>
  and no score is returned; when every predicted id is in gold (ids of gold may be
  missing from the predictions) no \<^verbatim>\<open>KeyError\<close> is raised, and a score is returned when
  the test set is not empty.
\<close>

theorem extraneous_prediction_raises:
  "((\<exists>qid \<in> fst ` set answers. gt qid = None) \<longrightarrow> accuracy answers gt n = Inl KeyError)
   \<and> (fst ` set answers \<subseteq> dom gt \<longrightarrow> accuracy answers gt n \<noteq> Inl KeyError)
   \<and> (fst ` set answers \<subseteq> dom gt \<and> 0 < n \<longrightarrow> (\<exists>score. accuracy answers gt n = Inr score))"
proof (intro conjI impI)
  assume "\<exists>qid \<in> fst ` set answers. gt qid = None"
  then obtain qid a where "(qid, a) \<in> set answers" "gt qid = None" by auto
  then have "correct_flags answers gt = Inl KeyError" by (rule correct_flags_KeyError)
  then show "accuracy answers gt n = Inl KeyError" by (simp add: accuracy_def)
next
  assume "fst ` set answers \<subseteq> dom gt"
  then show "accuracy answers gt n \<noteq> Inl KeyError"
    by (simp add: accuracy_def correct_flags_Inr)
next
  assume "fst ` set answers \<subseteq> dom gt \<and> 0 < n"
  then show "\<exists>score. accuracy answers gt n = Inr score"
    by (simp add: accuracy_def correct_flags_Inr)
qed

theorem extraneous_prediction_raises_witness:
  "fst ` set [(''7'', ''A'')] \<subseteq> dom [''7'' \<mapsto> ''A'', ''8'' \<mapsto> ''B''] \<and> (0::nat) < 2
   \<and> (\<exists>score. accuracy [(''7'', ''A'')] [''7'' \<mapsto> ''A'', ''8'' \<mapsto> ''B''] 2 = Inr score)
   \<and> (\<exists>qid \<in> fst ` set [(''7'', ''A''), (''9'', ''A'')]. [''7'' \<mapsto> ''A'', ''8'' \<mapsto> ''B''] qid = None)
   \<and> accuracy [(''7'', ''A''), (''9'', ''A'')] [''7'' \<mapsto> ''A'', ''8'' \<mapsto> ''B''] 2 = Inl KeyError"
proof -
  have a: "fst ` set [(''7'', ''A'')] \<subseteq> dom [''7'' \<mapsto> ''A'', ''8'' \<mapsto> ''B''] \<and> (0::nat) < 2"
    by simp
  have b: "\<exists>qid \<in> fst ` set [(''7'', ''A''), (''9'', ''A'')]. [''7'' \<mapsto> ''A'', ''8'' \<mapsto> ''B''] qid = None"
    by simp
  from a extraneous_prediction_raises [of "[(''7'', ''A'')]" "[''7'' \<mapsto> ''A'', ''8'' \<mapsto> ''B'']" 2]
  have c: "\<exists>score. accuracy [(''7'', ''A'')] [''7'' \<mapsto> ''A'', ''8'' \<mapsto> ''B''] 2 = Inr score"
    by blast
  from b extraneous_prediction_raises [of "[(''7'', ''A''), (''9'', ''A'')]" "[''7'' \<mapsto> ''A'', ''8'' \<mapsto> ''B'']" 2]
  have d: "accuracy [(''7'', ''A''), (''9'', ''A'')] [''7'' \<mapsto> ''A'', ''8'' \<mapsto> ''B''] 2 = Inl KeyError"
    by blast
  from a b c d show ?thesis by blast
qed

section \<open>The branch of the parser\<close>

lemma dict_comp_Inl:
  "dict_comp f d = Inl e \<Longrightarrow> \<exists>kv \<in> set d. f (snd kv) = Inl e"
  by (induction f d rule: dict_comp.induct) (auto split: sum.splits)

lemma dict_comp_Inr:
  "\<forall>kv \<in> set d. \<exists>w. f (snd kv) = Inr w \<Longrightarrow> \<exists>r. dict_comp f d = Inr r"
  by (induction f d rule: dict_comp.induct) (auto split: sum.splits)

lemma dict_comp_fails:
  "kv \<in> set d \<Longrightarrow> f (snd kv) = Inl e \<Longrightarrow> \<exists>e'. dict_comp f d = Inl e'"
  by (induction f d rule: dict_comp.induct) (auto split: sum.splits)

lemma explanation_of_cases:
  "explanation_of v = Inl e \<Longrightarrow> e = AttributeError \<and> (\<forall>s. v \<noteq> PStr s)"
  by (cases v) (auto simp: explanation_of_def)

lemma explanations_AttributeError:
  assumes "kv \<in> set d" "\<forall>s. snd kv \<noteq> PStr s"
  shows "dict_comp explanation_of d = Inl AttributeError"
proof -
  have "explanation_of (snd kv) = Inl AttributeError"
    using assms(2) by (cases "snd kv") (auto simp: explanation_of_def)
  with assms(1) obtain e where e: "dict_comp explanation_of d = Inl e"
    using dict_comp_fails by blast
  then obtain kv' where "kv' \<in> set d" "explanation_of (snd kv') = Inl e"
    using dict_comp_Inl by blast
  then have "e = AttributeError" using explanation_of_cases by blast
  with e show ?thesis by simp
qed

text \<open>
  C9: the parser looks at the type of the first value only and handles every entry in the
  branch chosen there. When the first value is a string, all entries go through the
  string branch (and through the list branch when it is a list); a later value that is a
  list is then given to \<^verbatim>\<open>split\<close> as a string would be, which raises
  \<^verbatim>\<open>AttributeError\<close>.
\<close>

theorem branch_chosen_by_first_value:
  "eval_prediction ((qid, PStr s) # others) = str_branch ((qid, PStr s) # others)
   \<and> eval_prediction ((qid, PList l) # others) = list_branch ((qid, PList l) # others)
   \<and> ((\<exists>kv \<in> set others. \<exists>l. snd kv = PList l) \<longrightarrow>
        eval_prediction ((qid, PStr s) # others) = Inl AttributeError)"
proof (intro conjI impI)
  show "eval_prediction ((qid, PList l) # others) = list_branch ((qid, PList l) # others)"
    by (simp add: eval_prediction_def)
next
  show "eval_prediction ((qid, PStr s) # others) = str_branch ((qid, PStr s) # others)"
    by (simp add: eval_prediction_def)
next
  assume "\<exists>kv \<in> set others. \<exists>l. snd kv = PList l"
  then obtain kv l where "kv \<in> set ((qid, PStr s) # others)" "snd kv = PList l" by auto
  then have "dict_comp explanation_of ((qid, PStr s) # others) = Inl AttributeError"
    by (intro explanations_AttributeError[of kv]) auto
  then show "eval_prediction ((qid, PStr s) # others) = Inl AttributeError"
    by (simp add: eval_prediction_def str_branch_def)
qed

theorem branch_chosen_by_first_value_witness:
  "(\<exists>kv \<in> set [(''2'', PList [PStr ''B''])]. \<exists>l. snd kv = PList l)
   \<and> eval_prediction [(''1'', PStr ''A''), (''2'', PList [PStr ''B''])] = Inl AttributeError
   \<and> eval_prediction [(''1'', PStr ''A''), (''2'', PList [PStr ''B''])]
       = str_branch [(''1'', PStr ''A''), (''2'', PList [PStr ''B''])]
   \<and> list_branch [(''1'', PStr ''A''), (''2'', PList [PStr ''B''])]
       = Inr ([(''1'', ''A''), (''2'', ''B'')], [(''1'', ''A''), (''2'', ''B'')])"
proof -
  have a: "\<exists>kv \<in> set [(''2'', PList [PStr ''B''])]. \<exists>l. snd kv = PList l" by simp
  note t = branch_chosen_by_first_value [of "''1''" "''A''" "[(''2'', PList [PStr ''B''])]" "[]"]
  from a t have b: "eval_prediction [(''1'', PStr ''A''), (''2'', PList [PStr ''B''])] = Inl AttributeError"
    by blast
  from t have c: "eval_prediction [(''1'', PStr ''A''), (''2'', PList [PStr ''B''])]
       = str_branch [(''1'', PStr ''A''), (''2'', PList [PStr ''B''])]" by blast
  have d: "list_branch [(''1'', PStr ''A''), (''2'', PList [PStr ''B''])]
       = Inr ([(''1'', ''A''), (''2'', ''B'')], [(''1'', ''A''), (''2'', ''B'')])"
    by (simp add: list_branch_def then_do_def item0_def explanation_of_def answer_of_def
        answer_segment_def think_marker_def answer_marker_def clean_filter in_class_def
        is_letter_def strip_def is_space_def)
  from a b c d show ?thesis by blast
qed

section \<open>Accuracy\<close>

lemma ground_truth_loop_dom:
  "ground_truth_loop m g qids choices = Inr gt \<Longrightarrow> dom gt = dom g \<union> set qids"
  by (induction m g qids choices rule: ground_truth_loop.induct)
     (auto split: option.splits)

lemma ground_truth_dom: "ground_truth m qids choices = Inr gt \<Longrightarrow> dom gt = set qids"
  by (simp add: ground_truth_def ground_truth_loop_dom)

lemma count_list_map_True: "count_list (map f xs) True = length (filter f xs)"
  by (induction xs) auto

lemma agreeing_ids:
  assumes "distinct (map fst answers)"
  shows "{qid \<in> dom gt. map_of answers qid = gt qid}
         = fst ` set (filter (\<lambda>(qid, a). gt qid = Some a) answers)"
proof (intro set_eqI iffI)
  fix k
  assume "k \<in> {qid \<in> dom gt. map_of answers qid = gt qid}"
  then obtain a where "gt k = Some a" "map_of answers k = Some a" by auto
  then have "(k, a) \<in> set answers" using assms by simp
  with \<open>gt k = Some a\<close> show "k \<in> fst ` set (filter (\<lambda>(qid, a). gt qid = Some a) answers)"
    by force
next
  fix k
  assume "k \<in> fst ` set (filter (\<lambda>(qid, a). gt qid = Some a) answers)"
  then obtain a where "(k, a) \<in> set answers" "gt k = Some a" by auto
  then have "map_of answers k = Some a" using assms by simp
  with \<open>gt k = Some a\<close> show "k \<in> {qid \<in> dom gt. map_of answers qid = gt qid}" by auto
qed

lemma count_agreeing:
  assumes "distinct (map fst answers)"
  shows "length (filter (\<lambda>(qid, a). gt qid = Some a) answers)
         = card {qid \<in> dom gt. map_of answers qid = gt qid}"
proof -
  have "distinct (map fst (filter (\<lambda>(qid, a). gt qid = Some a) answers))"
    using assms by (rule distinct_map_filter)
  then have "card (set (map fst (filter (\<lambda>(qid, a). gt qid = Some a) answers)))
             = length (map fst (filter (\<lambda>(qid, a). gt qid = Some a) answers))"
    by (rule distinct_card)
  then have "card (fst ` set (filter (\<lambda>(qid, a). gt qid = Some a) answers))
             = length (filter (\<lambda>(qid, a). gt qid = Some a) answers)"
    by (simp only: set_map length_map)
  then show ?thesis by (simp only: agreeing_ids [OF assms])
qed

lemma accuracy_value:
  assumes "distinct (map fst answers)" "fst ` set answers \<subseteq> dom gt" "0 < n"
  shows "accuracy answers gt n
         = Inr (of_nat (card {qid \<in> dom gt. map_of answers qid = gt qid}) / of_nat n)"
  using assms
  by (simp add: accuracy_def correct_flags_Inr count_list_map_True count_agreeing)

text \<open>
  C4, as the claim states it, does not hold for every pair of mappings: with no test id
  the division raises \<^verbatim>\<open>ZeroDivisionError\<close> (although predictions and gold are equal, both
  empty), and a predicted id that gold does not have raises \<^verbatim>\<open>KeyError\<close>.
\<close>

theorem accuracy_raises_counterexample:
  "accuracy ([] :: (string \<times> string) list) Map.empty 0 = Inl ZeroDivisionError
   \<and> map_of ([] :: (string \<times> string) list) = Map.empty
   \<and> ground_truth mapping [''3''] [''yes''] = Inr [''3'' \<mapsto> ''A'']
   \<and> accuracy [(''3'', ''A''), (''9'', ''B'')] [''3'' \<mapsto> ''A''] 1 = Inl KeyError"
  by (simp add: accuracy_def ground_truth_def mapping_def)

text \<open>
  C4, amended: for a test split with at least one id and no repeated id, and predictions
  whose ids all occur in gold, the accuracy is the number of ids on which predictions and
  gold agree divided by the number of ids in gold. It lies between 0 and 1; ids of gold
  that have no prediction are not counted as correct and raise nothing; it is 1 when
  predictions and gold are the same mapping and 0 when every predicted symbol differs
  from the gold one.
\<close>

theorem accuracy_is_fraction_correct:
  assumes "ground_truth m qids choices = Inr gt"
    and "distinct qids" and "qids \<noteq> []"
    and "distinct (map fst answers)" and "fst ` set answers \<subseteq> dom gt"
  shows "accuracy answers gt (length qids)
           = Inr (of_nat (card {qid \<in> dom gt. map_of answers qid = gt qid})
                  / of_nat (card (dom gt)))
         \<and> 0 \<le> (of_nat (card {qid \<in> dom gt. map_of answers qid = gt qid})
                  / of_nat (card (dom gt)) :: rat)
         \<and> (of_nat (card {qid \<in> dom gt. map_of answers qid = gt qid})
                  / of_nat (card (dom gt)) :: rat) \<le> 1
         \<and> (map_of answers = gt \<longrightarrow> accuracy answers gt (length qids) = Inr 1)
         \<and> ((\<forall>(qid, a) \<in> set answers. gt qid \<noteq> Some a) \<longrightarrow>
               accuracy answers gt (length qids) = Inr 0)"
proof -
  let ?agree = "{qid \<in> dom gt. map_of answers qid = gt qid}"
  have dom: "dom gt = set qids" using assms(1) by (rule ground_truth_dom)
  have n: "card (dom gt) = length qids" using assms(2) by (simp add: dom distinct_card)
  have pos: "0 < length qids" using assms(3) by simp
  have val: "accuracy answers gt (length qids)
             = Inr (of_nat (card ?agree) / of_nat (card (dom gt)))"
    using accuracy_value [OF assms(4) assms(5) pos] by (simp add: n)
  have fin: "finite (dom gt)" by (simp add: dom)
  have le: "card ?agree \<le> card (dom gt)" by (rule card_mono [OF fin]) auto
  have lo: "0 \<le> (of_nat (card ?agree) / of_nat (card (dom gt)) :: rat)" by simp
  have hi: "(of_nat (card ?agree) / of_nat (card (dom gt)) :: rat) \<le> 1"
    using le pos n by (simp add: divide_le_eq_1)
  have one: "accuracy answers gt (length qids) = Inr 1" if "map_of answers = gt"
  proof -
    have "?agree = dom gt" using that by auto
    with val pos n show ?thesis by simp
  qed
  have zero: "accuracy answers gt (length qids) = Inr 0"
    if d: "\<forall>(qid, a) \<in> set answers. gt qid \<noteq> Some a"
  proof -
    have "filter (\<lambda>(qid, a). gt qid = Some a) answers = []"
      using d by (auto simp: filter_empty_conv)
    then have "card ?agree = 0" using count_agreeing [OF assms(4), of gt] by simp
    with val show ?thesis by simp
  qed
  from val lo hi one zero show ?thesis by blast
qed

theorem accuracy_is_fraction_correct_witness:
  "ground_truth mapping [''1'', ''2''] [''yes'', ''no''] = Inr [''1'' \<mapsto> ''A'', ''2'' \<mapsto> ''B'']
   \<and> distinct [''1'', ''2''] \<and> [''1'', ''2''] \<noteq> []
   \<and> distinct (map fst [(''1'', ''A'')])
   \<and> fst ` set [(''1'', ''A'')] \<subseteq> dom [''1'' \<mapsto> ''A'', ''2'' \<mapsto> ''B'']
   \<and> accuracy [(''1'', ''A'')] [''1'' \<mapsto> ''A'', ''2'' \<mapsto> ''B''] (length [''1'', ''2''])
       = Inr (of_nat (card {qid \<in> dom [''1'' \<mapsto> ''A'', ''2'' \<mapsto> ''B''].
                              map_of [(''1'', ''A'')] qid = [''1'' \<mapsto> ''A'', ''2'' \<mapsto> ''B''] qid})
              / of_nat (card (dom [''1'' \<mapsto> ''A'', ''2'' \<mapsto> ''B''])))
   \<and> accuracy [(''1'', ''A'')] [''1'' \<mapsto> ''A'', ''2'' \<mapsto> ''B''] (length [''1'', ''2'']) = Inr (1 / 2)
   \<and> map_of [(''2'', ''B''), (''1'', ''A'')] = [''1'' \<mapsto> ''A'', ''2'' \<mapsto> ''B'']
   \<and> accuracy [(''2'', ''B''), (''1'', ''A'')] [''1'' \<mapsto> ''A'', ''2'' \<mapsto> ''B''] (length [''1'', ''2'']) = Inr 1
   \<and> accuracy [(''1'', ''B'')] [''1'' \<mapsto> ''A'', ''2'' \<mapsto> ''B''] (length [''1'', ''2'']) = Inr 0"
proof -
  let ?gt = "[''1'' \<mapsto> ''A'', ''2'' \<mapsto> ''B'']"
  have g: "ground_truth mapping [''1'', ''2''] [''yes'', ''no''] = Inr ?gt"
    by (simp add: ground_truth_def mapping_def)
  have q: "distinct [''1'', ''2'']" "[''1'', ''2''] \<noteq> []" by simp_all
  have a1: "distinct (map fst [(''1'', ''A'')])" "fst ` set [(''1'', ''A'')] \<subseteq> dom ?gt"
    by simp_all
  have a2: "distinct (map fst [(''2'', ''B''), (''1'', ''A'')])"
    "fst ` set [(''2'', ''B''), (''1'', ''A'')] \<subseteq> dom ?gt" by simp_all
  have a3: "distinct (map fst [(''1'', ''B'')])" "fst ` set [(''1'', ''B'')] \<subseteq> dom ?gt"
    by simp_all
  have m2: "map_of [(''2'', ''B''), (''1'', ''A'')] = ?gt" by simp
  have d3: "\<forall>(qid, a) \<in> set [(''1'', ''B'')]. ?gt qid \<noteq> Some a" by simp
  note t1 = accuracy_is_fraction_correct [OF g q a1]
  note t2 = accuracy_is_fraction_correct [OF g q a2]
  note t3 = accuracy_is_fraction_correct [OF g q a3]
  have v: "accuracy [(''1'', ''A'')] ?gt (length [''1'', ''2'']) = Inr (1 / 2)"
    by (simp add: accuracy_def)
  from t2 m2 have o: "accuracy [(''2'', ''B''), (''1'', ''A'')] ?gt (length [''1'', ''2'']) = Inr 1"
    by blast
  from t3 d3 have z: "accuracy [(''1'', ''B'')] ?gt (length [''1'', ''2'']) = Inr 0"
    by blast
  from t1 have e: "accuracy [(''1'', ''A'')] ?gt (length [''1'', ''2''])
       = Inr (of_nat (card {qid \<in> dom ?gt. map_of [(''1'', ''A'')] qid = ?gt qid})
              / of_nat (card (dom ?gt)))" by blast
  from g q a1 e v m2 o z show ?thesis by blast
qed

section \<open>Failures of the parser\<close>

text \<open>
  \<^verbatim>\<open>split\<close> never returns an empty list, so \<^verbatim>\<open>[-1]\<close> and \<^verbatim>\<open>[0]\<close> on its result always
  succeed; a text in which the separator does not occur comes back whole.
\<close>

lemma py_split_not_Nil: "py_split sep s \<noteq> []"
  by (induction sep s rule: py_split.induct) (auto split: list.splits)

lemma py_split_absent:
  "\<forall>pre post. s \<noteq> pre @ sep @ post \<Longrightarrow> py_split sep s = [s]"
proof (induction sep s rule: py_split.induct)
  case (1 sep)
  show ?case by simp
next
  case (2 sep c cs)
  have np: "\<not> prefix sep (c # cs)"
  proof
    assume "prefix sep (c # cs)"
    then obtain post where "c # cs = [] @ sep @ post" by (auto simp: prefix_def)
    with 2(3) show False by blast
  qed
  have "\<forall>pre post. cs \<noteq> pre @ sep @ post"
  proof (intro allI notI)
    fix pre post assume "cs = pre @ sep @ post"
    then have "c # cs = (c # pre) @ sep @ post" by simp
    with 2(3) show False by blast
  qed
  with 2(2) np have "py_split sep cs = [cs]" by simp
  with np show ?case by simp
qed

lemma answer_of_PStr:
  "answer_of (PStr s) =
     (if clean (strip (answer_segment s)) = [] then Inl IndexError
      else Inr [hd (clean (strip (answer_segment s)))])"
  by (simp add: answer_of_def split: list.splits)

lemma explanation_of_PStr: "\<exists>w. explanation_of (PStr s) = Inr w"
  by (simp add: explanation_of_def)

lemma then_do_item0_PList [simp]: "then_do item0 f (PList (x # xs)) = f x"
  by (simp add: then_do_def item0_def)

text \<open>A comprehension in which an entry fails, and entries fail with one error only.\<close>

lemma dict_comp_one_error:
  assumes "kv \<in> set d" "f (snd kv) = Inl e"
    and "\<forall>kv \<in> set d. \<forall>e'. f (snd kv) = Inl e' \<longrightarrow> e' = e"
  shows "dict_comp f d = Inl e"
proof -
  obtain e' where e': "dict_comp f d = Inl e'"
    using dict_comp_fails [of kv d f e] assms(1) assms(2) by blast
  then obtain kv' where "kv' \<in> set d" "f (snd kv') = Inl e'"
    using dict_comp_Inl by blast
  with assms(3) have "e' = e" by blast
  with e' show ?thesis by simp
qed

lemma str_branch_empty_segment:
  assumes all: "\<forall>kv \<in> set d. \<exists>s. snd kv = PStr s"
    and bad: "\<exists>kv \<in> set d. \<exists>s. snd kv = PStr s \<and> clean (strip (answer_segment s)) = []"
  shows "str_branch d = Inl IndexError"
proof -
  have "\<forall>kv \<in> set d. \<exists>w. explanation_of (snd kv) = Inr w"
    using all explanation_of_PStr by fastforce
  then obtain ex where ex: "dict_comp explanation_of d = Inr ex"
    using dict_comp_Inr by blast
  obtain kv s where kv: "kv \<in> set d" "snd kv = PStr s" "clean (strip (answer_segment s)) = []"
    using bad by blast
  then have f: "answer_of (snd kv) = Inl IndexError" by (simp add: answer_of_PStr)
  have "\<forall>kv \<in> set d. \<forall>e'. answer_of (snd kv) = Inl e' \<longrightarrow> e' = IndexError"
    using all by (fastforce simp: answer_of_PStr split: if_splits)
  with kv(1) f have "dict_comp answer_of d = Inl IndexError"
    by (rule dict_comp_one_error)
  with ex show ?thesis by (simp add: str_branch_def)
qed

lemma str_branch_returns:
  assumes all: "\<forall>kv \<in> set d. \<exists>s. snd kv = PStr s"
    and good: "\<forall>kv \<in> set d. \<forall>s. snd kv = PStr s \<longrightarrow> clean (strip (answer_segment s)) \<noteq> []"
  shows "\<exists>r. str_branch d = Inr r"
proof -
  have "\<forall>kv \<in> set d. \<exists>w. explanation_of (snd kv) = Inr w"
    using all explanation_of_PStr by fastforce
  then obtain ex where ex: "dict_comp explanation_of d = Inr ex"
    using dict_comp_Inr by blast
  have "\<forall>kv \<in> set d. \<exists>w. answer_of (snd kv) = Inr w"
    using all good by (fastforce simp: answer_of_PStr)
  then obtain an where "dict_comp answer_of d = Inr an"
    using dict_comp_Inr by blast
  with ex show ?thesis by (simp add: str_branch_def)
qed

lemma list_branch_empty_segment:
  assumes all: "\<forall>kv \<in> set d. \<exists>s rest. snd kv = PList (PStr s # rest)"
    and bad: "\<exists>kv \<in> set d. \<exists>s rest. snd kv = PList (PStr s # rest)
                \<and> clean (strip (answer_segment s)) = []"
  shows "list_branch d = Inl IndexError"
proof -
  have "\<forall>kv \<in> set d. \<exists>w. then_do item0 explanation_of (snd kv) = Inr w"
    using all explanation_of_PStr by fastforce
  then obtain ex where ex: "dict_comp (then_do item0 explanation_of) d = Inr ex"
    using dict_comp_Inr by blast
  obtain kv s rest where kv: "kv \<in> set d" "snd kv = PList (PStr s # rest)"
      "clean (strip (answer_segment s)) = []"
    using bad by blast
  then have f: "then_do item0 answer_of (snd kv) = Inl IndexError"
    by (simp add: answer_of_PStr)
  have "\<forall>kv \<in> set d. \<forall>e'. then_do item0 answer_of (snd kv) = Inl e' \<longrightarrow> e' = IndexError"
    using all by (fastforce simp: answer_of_PStr split: if_splits)
  with kv(1) f have "dict_comp (then_do item0 answer_of) d = Inl IndexError"
    by (rule dict_comp_one_error)
  with ex show ?thesis by (simp add: list_branch_def)
qed

lemma list_branch_returns:
  assumes all: "\<forall>kv \<in> set d. \<exists>s rest. snd kv = PList (PStr s # rest)"
    and good: "\<forall>kv \<in> set d. \<forall>s rest. snd kv = PList (PStr s # rest) \<longrightarrow>
                 clean (strip (answer_segment s)) \<noteq> []"
  shows "\<exists>r. list_branch d = Inr r"
proof -
  have "\<forall>kv \<in> set d. \<exists>w. then_do item0 explanation_of (snd kv) = Inr w"
    using all explanation_of_PStr by fastforce
  then obtain ex where ex: "dict_comp (then_do item0 explanation_of) d = Inr ex"
    using dict_comp_Inr by blast
  have "\<forall>kv \<in> set d. \<exists>w. then_do item0 answer_of (snd kv) = Inr w"
  proof
    fix kv assume kv: "kv \<in> set d"
    with all obtain s rest where v: "snd kv = PList (PStr s # rest)" by blast
    with good kv have "clean (strip (answer_segment s)) \<noteq> []" by blast
    with v show "\<exists>w. then_do item0 answer_of (snd kv) = Inr w"
      by (simp add: answer_of_PStr)
  qed
  then obtain an where "dict_comp (then_do item0 answer_of) d = Inr an"
    using dict_comp_Inr by blast
  with ex show ?thesis by (simp add: list_branch_def)
qed

text \<open>
  C6, as the claim states it, does not hold: a generation with neither marker is parsed
  without any failure. For the text \<open>A\<close> both splits return the whole text, and the parser
  returns the explanation \<open>A\<close> and the answer symbol \<open>A\<close>.
\<close>

theorem markers_absent_counterexample:
  "py_split think_marker ''A'' = [''A''] \<and> py_split answer_marker ''A'' = [''A'']
   \<and> eval_prediction [(''3'', PStr ''A'')] = Inr ([(''3'', ''A'')], [(''3'', ''A'')])"
  by (simp add: eval_prediction_def str_branch_def explanation_of_def answer_of_def
      answer_segment_def think_marker_def answer_marker_def clean_filter in_class_def
      is_letter_def strip_def is_space_def)

text \<open>
  C6, amended: for predictions that are all strings, and likewise for predictions that
  are all lists starting with a string (the text is then the first element), parsing
  fails with \<^verbatim>\<open>IndexError\<close> when the cleaned answer segment of an entry is empty, and
  returns when every cleaned answer segment is non-empty, whether the markers occur or
  not: the answer segment of a text without the answer marker is the whole text. When the first value is neither a string nor a list, parsing fails with
  \<^verbatim>\<open>NotImplementedError\<close>. (\<^verbatim>\<open>IndexError\<close> and \<^verbatim>\<open>NotImplementedError\<close> are what the
  specification calls \<open>MalformedAnswer\<close> and \<open>UnsupportedFormat\<close>.)
\<close>

theorem parser_failures:
  "((\<forall>kv \<in> set d. \<exists>s. snd kv = PStr s) \<and> d \<noteq> [] \<longrightarrow>
      ((\<exists>kv \<in> set d. \<exists>s. snd kv = PStr s \<and> clean (strip (answer_segment s)) = []) \<longrightarrow>
         eval_prediction d = Inl IndexError)
      \<and> ((\<forall>kv \<in> set d. \<forall>s. snd kv = PStr s \<longrightarrow> clean (strip (answer_segment s)) \<noteq> []) \<longrightarrow>
         (\<exists>r. eval_prediction d = Inr r)))
   \<and> ((\<forall>kv \<in> set d. \<exists>s rest. snd kv = PList (PStr s # rest)) \<and> d \<noteq> [] \<longrightarrow>
      ((\<exists>kv \<in> set d. \<exists>s rest. snd kv = PList (PStr s # rest)
          \<and> clean (strip (answer_segment s)) = []) \<longrightarrow>
         eval_prediction d = Inl IndexError)
      \<and> ((\<forall>kv \<in> set d. \<forall>s rest. snd kv = PList (PStr s # rest) \<longrightarrow>
             clean (strip (answer_segment s)) \<noteq> []) \<longrightarrow>
         (\<exists>r. eval_prediction d = Inr r)))
   \<and> ((\<forall>pre post. s \<noteq> pre @ answer_marker @ post) \<longrightarrow> answer_segment s = s)
   \<and> eval_prediction ((qid, POther) # others) = Inl NotImplementedError"
proof (intro conjI impI)
  assume a: "(\<forall>kv \<in> set d. \<exists>s. snd kv = PStr s) \<and> d \<noteq> []"
  then obtain kv0 s0 rest where d: "d = kv0 # rest" "snd kv0 = PStr s0"
    by (cases d) auto
  then have e: "eval_prediction d = str_branch d" by (simp add: eval_prediction_def)
  {
    assume "\<exists>kv \<in> set d. \<exists>s. snd kv = PStr s \<and> clean (strip (answer_segment s)) = []"
    with a show "eval_prediction d = Inl IndexError"
      by (simp add: e str_branch_empty_segment)
  }
  {
    assume "\<forall>kv \<in> set d. \<forall>s. snd kv = PStr s \<longrightarrow> clean (strip (answer_segment s)) \<noteq> []"
    with a have "\<exists>r. str_branch d = Inr r"
      by (intro str_branch_returns) blast+
    then show "\<exists>r. eval_prediction d = Inr r"
      by (simp only: e)
  }
next
  assume a: "(\<forall>kv \<in> set d. \<exists>s rest. snd kv = PList (PStr s # rest)) \<and> d \<noteq> []"
  then obtain kv0 s0 r0 rest where "d = kv0 # rest" "snd kv0 = PList (PStr s0 # r0)"
    by (cases d) auto
  then have e: "eval_prediction d = list_branch d" by (simp add: eval_prediction_def)
  {
    assume "\<exists>kv \<in> set d. \<exists>s rest. snd kv = PList (PStr s # rest)
              \<and> clean (strip (answer_segment s)) = []"
    with a show "eval_prediction d = Inl IndexError"
      by (simp add: e list_branch_empty_segment)
  }
  {
    assume "\<forall>kv \<in> set d. \<forall>s rest. snd kv = PList (PStr s # rest) \<longrightarrow>
              clean (strip (answer_segment s)) \<noteq> []"
    with a have "\<exists>r. list_branch d = Inr r"
      by (intro list_branch_returns) blast+
    then show "\<exists>r. eval_prediction d = Inr r"
      by (simp only: e)
  }
next
  assume "\<forall>pre post. s \<noteq> pre @ answer_marker @ post"
  then show "answer_segment s = s"
    by (simp add: answer_segment_def py_split_absent)
next
  show "eval_prediction ((qid, POther) # others) = Inl NotImplementedError"
    by (simp add: eval_prediction_def)
qed

theorem parser_failures_witness:
  "eval_prediction [(''3'', PStr ''{\"answer_choice\": 42}'')] = Inl IndexError
   \<and> (\<exists>r. eval_prediction [(''3'', PStr ''A'')] = Inr r)
   \<and> eval_prediction [(''3'', PList [PStr ''{\"answer_choice\": 42}''])] = Inl IndexError
   \<and> (\<exists>r. eval_prediction [(''3'', PList [PStr ''A'', PStr ''B''])] = Inr r)
   \<and> answer_segment ''A'' = ''A''
   \<and> eval_prediction [(''3'', POther)] = Inl NotImplementedError"
proof -
  have seg: "clean (strip (answer_segment ''{\"answer_choice\": 42}'')) = []"
    "clean (strip (answer_segment ''A'')) \<noteq> []"
    by (simp_all add: answer_segment_def answer_marker_def clean_filter in_class_def
        is_letter_def strip_def is_space_def)
  have absent: "\<forall>pre post. ''A'' \<noteq> pre @ answer_marker @ post"
    by (auto simp: answer_marker_def Cons_eq_append_conv)
  note t1 = parser_failures [of "[(''3'', PStr ''{\"answer_choice\": 42}'')]" "''A''" "''3''" "[]"]
  note t2 = parser_failures [of "[(''3'', PStr ''A'')]" "''A''" "''3''" "[]"]
  note t3 = parser_failures [of "[(''3'', PList [PStr ''{\"answer_choice\": 42}''])]" "''A''" "''3''" "[]"]
  have c1: "eval_prediction [(''3'', PStr ''{\"answer_choice\": 42}'')] = Inl IndexError"
    using t1 seg(1) by simp
  have c2: "\<exists>r. eval_prediction [(''3'', PStr ''A'')] = Inr r"
    using t2 seg(2) by simp
  have c3: "eval_prediction [(''3'', PList [PStr ''{\"answer_choice\": 42}''])] = Inl IndexError"
    using t3 seg(1) by simp
  note t4 = parser_failures [of "[(''3'', PList [PStr ''A'', PStr ''B''])]" "''A''" "''3''" "[]"]
  have c4: "answer_segment ''A'' = ''A''" using t1 absent by blast
  have c5: "eval_prediction [(''3'', POther)] = Inl NotImplementedError" using t1 by blast
  have c6: "\<exists>r. eval_prediction [(''3'', PList [PStr ''A'', PStr ''B''])] = Inr r"
    using t4 seg(2) by simp
  from c1 c2 c3 c4 c5 c6 show ?thesis by blast
qed

section \<open>Prompt assembly\<close>

lemma shots_loop_agree:
  "\<forall>shot \<in> set shots. data1 shot = data2 shot \<Longrightarrow>
     shots_loop m data1 query shots = shots_loop m data2 query shots"
  by (induction m data1 query shots rule: shots_loop.induct) (auto split: option.splits sum.splits)

lemma fewshot_query_Inr:
  "fewshot_query rnd nb k m data t = Inr (shots, p) \<Longrightarrow>
     build_query m data shots (item_question t) = Inr p"
  by (auto simp: fewshot_query_def split: option.splits sum.splits)

text \<open>
  C8: the prompt is determined by the question, the ordered demonstrators and the answer
  mapping. Two runs of the few-shot cell that select the same demonstrators for the same
  question build the same prompt, whatever the random draws, the candidate lists and
  the number of shots were, and whatever the train data hold for other ids; and a
  demonstration block depends only on the three fields it reads and on the mapping.
\<close>

theorem prompt_deterministic:
  assumes "fewshot_query rnd1 nb1 k1 m data1 t1 = Inr (shots, p1)"
    and "fewshot_query rnd2 nb2 k2 m data2 t2 = Inr (shots, p2)"
    and "item_question t1 = item_question t2"
    and "\<forall>shot \<in> set shots. data1 shot = data2 shot"
  shows "p1 = p2
         \<and> build_query m data1 shots (item_question t1) = Inr p1
         \<and> (QUESTION e1 = QUESTION e2 \<and> LONG_ANSWER e1 = LONG_ANSWER e2
              \<and> final_decision e1 = final_decision e2 \<longrightarrow> demo_block m e1 = demo_block m e2)"
proof -
  have b1: "build_query m data1 shots (item_question t1) = Inr p1"
    using assms(1) by (rule fewshot_query_Inr)
  have b2: "build_query m data2 shots (item_question t2) = Inr p2"
    using assms(2) by (rule fewshot_query_Inr)
  have "build_query m data1 shots (item_question t1) = build_query m data2 shots (item_question t2)"
    using shots_loop_agree [OF assms(4)] assms(3) by (simp add: build_query_def)
  with b1 b2 have "p1 = p2" by simp
  moreover have "QUESTION e1 = QUESTION e2 \<and> LONG_ANSWER e1 = LONG_ANSWER e2
              \<and> final_decision e1 = final_decision e2 \<longrightarrow> demo_block m e1 = demo_block m e2"
    by (auto simp: demo_block_def split: option.splits)
  ultimately show ?thesis using b1 by blast
qed

theorem prompt_deterministic_witness:
  "fewshot_query (\<lambda>i. 5) [''Q'' \<mapsto> [''A'']] 1 mapping
      [''A'' \<mapsto> \<lparr>QUESTION = ''Q1?'', LONG_ANSWER = ''because'', final_decision = ''yes''\<rparr>]
      \<lparr>item_question = ''Q2?'', item_options = [], item_concepts = [''diabetes''],
        item_answers = ''no'', item_qid = ''Q''\<rparr>
     = Inr ([''A''],
        ''Q1? {\"step_by_step_thinking\": \"because\"answer_choice\": \"A\"}\<newline> \<newline>Q2?'')
   \<and> fewshot_query (\<lambda>i. 0) [''Q'' \<mapsto> [''A'', ''B'']] 1 mapping
      [''A'' \<mapsto> \<lparr>QUESTION = ''Q1?'', LONG_ANSWER = ''because'', final_decision = ''yes''\<rparr>,
       ''B'' \<mapsto> \<lparr>QUESTION = ''Q3?'', LONG_ANSWER = ''since'', final_decision = ''no''\<rparr>]
      \<lparr>item_question = ''Q2?'', item_options = [''yes'', ''no''], item_concepts = [],
        item_answers = ''yes'', item_qid = ''Q''\<rparr>
     = Inr ([''A''],
        ''Q1? {\"step_by_step_thinking\": \"because\"answer_choice\": \"A\"}\<newline> \<newline>Q2?'')
   \<and> build_query mapping
      [''A'' \<mapsto> \<lparr>QUESTION = ''Q1?'', LONG_ANSWER = ''because'', final_decision = ''yes''\<rparr>]
      [''A''] ''Q2?''
     = Inr ''Q1? {\"step_by_step_thinking\": \"because\"answer_choice\": \"A\"}\<newline> \<newline>Q2?''
   \<and> demo_block mapping \<lparr>QUESTION = ''Q1?'', LONG_ANSWER = ''because'', final_decision = ''yes''\<rparr>
     = demo_block mapping
         \<lparr>QUESTION = ''Q1?'', LONG_ANSWER = ''because'', final_decision = ''yes'', \<dots> = True\<rparr>"
proof -
  let ?p = "''Q1? {\"step_by_step_thinking\": \"because\"answer_choice\": \"A\"}\<newline> \<newline>Q2?''"
  let ?e = "\<lparr>QUESTION = ''Q1?'', LONG_ANSWER = ''because'', final_decision = ''yes''\<rparr>"
  let ?d1 = "[''A'' \<mapsto> ?e]"
  let ?d2 = "[''A'' \<mapsto> ?e,
       ''B'' \<mapsto> \<lparr>QUESTION = ''Q3?'', LONG_ANSWER = ''since'', final_decision = ''no''\<rparr>]"
  let ?t1 = "\<lparr>item_question = ''Q2?'', item_options = [], item_concepts = [''diabetes''],
        item_answers = ''no'', item_qid = ''Q''\<rparr>"
  let ?t2 = "\<lparr>item_question = ''Q2?'', item_options = [''yes'', ''no''], item_concepts = [],
        item_answers = ''yes'', item_qid = ''Q''\<rparr>"
  have r1: "fewshot_query (\<lambda>i. 5) [''Q'' \<mapsto> [''A'']] 1 mapping ?d1 ?t1 = Inr ([''A''], ?p)"
    by (simp add: fewshot_query_def random_sample_def build_query_def demo_block_def
        mapping_def)
  have r2: "fewshot_query (\<lambda>i. 0) [''Q'' \<mapsto> [''A'', ''B'']] 1 mapping ?d2 ?t2
            = Inr ([''A''], ?p)"
    by (simp add: fewshot_query_def random_sample_def build_query_def demo_block_def
        mapping_def)
  have q: "item_question ?t1 = item_question ?t2" by simp
  have a: "\<forall>shot \<in> set [''A'']. ?d1 shot = ?d2 shot" by simp
  note t = prompt_deterministic [OF r1 r2 q a,
      of ?e "\<lparr>QUESTION = ''Q1?'', LONG_ANSWER = ''because'', final_decision = ''yes'', \<dots> = True\<rparr>"]
  from t have "build_query mapping ?d1 [''A''] (item_question ?t1) = Inr ?p" by blast
  then have b: "build_query mapping ?d1 [''A''] ''Q2?'' = Inr ?p"
    by (simp only: item.select_convs)
  from t have c: "demo_block mapping ?e
     = demo_block mapping
         \<lparr>QUESTION = ''Q1?'', LONG_ANSWER = ''because'', final_decision = ''yes'', \<dots> = True\<rparr>"
    by (simp only: pqa_entry.select_convs simp_thms)
  from r1 r2 b c show ?thesis by blast
qed

end
